theory Spec2Isabelle
  imports Complex_Main
begin

section \<open>The chain visualization: data model\<close>

text \<open>
  The component \<^verbatim>\<open>BlockchainVisualization\<close> receives a list of block records, builds a
  three.js group of box meshes and connecting lines, and animates it.  The placement of a
  mesh (lines 48 to 52) is read over the real numbers: \<open>Math.cos\<close> is \<open>cos\<close> and the
  products are exact.  The two places where the source keeps a rounded number are modelled
  with the rounding: the \<^verbatim>\<open>Float32Array\<close> of a line's endpoints stores single-precision
  numbers, and \<^verbatim>\<open>rotation.y += 0.005\<close> is an addition of doubles.  The only division of the
  source, \<^verbatim>\<open>clientWidth / clientHeight\<close>, can divide by zero and is modelled with the
  results JavaScript gives there.
\<close>

datatype error = TypeError | NotFoundError

text \<open>\<^verbatim>\<open>interface Block\<close>; \<^verbatim>\<open>transactions: any[]\<close> is kept opaque.\<close>

record 'tx Block =
  index :: int
  hash :: string
  previous_hash :: string
  transactions :: "'tx list"

section \<open>Rounding to binary floating point\<close>

text \<open>
  IEEE 754 rounding to nearest, ties to even, of a real number to a binary format with
  \<open>p\<close> bits of precision and least exponent \<open>emin\<close>: the number is a multiple of the unit
  in the last place of its binade, and subnormal numbers share the unit of the least binade.
  Results beyond the largest finite number, which IEEE turns into an infinity, are not
  modelled: the rotation and the coordinates of this component stay far below them (an array
  holds fewer than \<open>2 ^ 32\<close> blocks).
\<close>

definition round_half_even :: "real \<Rightarrow> int" where
  "round_half_even y =
     (let f = \<lfloor>y\<rfloor>
      in if y - of_int f < 1 / 2 then f
         else if 1 / 2 < y - of_int f then f + 1
         else if even f then f else f + 1)"

definition binary_round :: "nat \<Rightarrow> int \<Rightarrow> real \<Rightarrow> real" where
  "binary_round p emin x =
     (if x = 0 then 0
      else let e = max \<lfloor>log 2 \<bar>x\<bar>\<rfloor> emin;
               ulp = 2 powr of_int (e - int p + 1)
           in of_int (round_half_even (x / ulp)) * ulp)"

text \<open>The double nearest to a real, and the sum of two doubles as JavaScript computes it.\<close>

definition double :: "real \<Rightarrow> real" where
  "double x = binary_round 53 (- 1022) x"

definition double_add :: "real \<Rightarrow> real \<Rightarrow> real" where
  "double_add a b = double (a + b)"

text \<open>The number an element of a \<^verbatim>\<open>Float32Array\<close> holds after a number is stored in it.\<close>

definition fround :: "real \<Rightarrow> real" where
  "fround x = binary_round 24 (- 126) x"

section \<open>Scene objects\<close>

datatype vector3 = Vector3 (vx: real) (vy: real) (vz: real)

record MeshPhongMaterial =
  color :: nat
  transparent :: bool
  opacity :: real

text \<open>
  The two kinds of \<^verbatim>\<open>Object3D\<close> the group holds.  Every \<^verbatim>\<open>Object3D\<close> has a \<open>position\<close>,
  which three.js initialises to the zero vector; the source assigns the position of a mesh
  and never that of a line.
\<close>

datatype object3d =
    is_Mesh: Mesh (geometry: "real \<times> real \<times> real") (material: MeshPhongMaterial)
      (position: vector3)
  | is_Line: Line (positions: "real list") (line_color: nat) (position: vector3)

record Group =
  children :: "object3d list"
  rotation :: vector3

definition new_Group :: Group where
  "new_Group = \<lparr>children = [], rotation = Vector3 0 0 0\<rparr>"

definition add :: "Group \<Rightarrow> object3d \<Rightarrow> Group" where
  "add g obj = g\<lparr>children := children g @ [obj]\<rparr>"

section \<open>The geometry builder\<close>

text \<open>The colours \<^verbatim>\<open>0x9333ea\<close>, \<^verbatim>\<open>0x6b21a8\<close> and \<^verbatim>\<open>0x4c1d95\<close>.\<close>

definition highlight_color :: nat where
  "highlight_color = 9647082"

definition base_color :: nat where
  "base_color = 7020968"

definition connector_color :: nat where
  "connector_color = 4988309"

text \<open>Lines 40 to 44: the material of a block, given \<^verbatim>\<open>blocks.length\<close>.\<close>

definition block_material :: "'tx Block \<Rightarrow> nat \<Rightarrow> MeshPhongMaterial" where
  "block_material block len =
     \<lparr>color = (if index block = int len - 1 then highlight_color else base_color),
      transparent = True,
      opacity = 0.8\<rparr>"

text \<open>Lines 48 to 52: the spiral position of the mesh at array position \<open>idx\<close>.\<close>

definition spiral_position :: "nat \<Rightarrow> vector3" where
  "spiral_position idx =
     (let angle = real idx * 0.5;
          radius = 3
      in Vector3 (cos angle * radius) (real idx * 0.5) (sin angle * radius))"

definition new_mesh :: "'tx Block \<Rightarrow> nat \<Rightarrow> nat \<Rightarrow> object3d" where
  "new_mesh block idx len = Mesh (1, 1, 1) (block_material block len) (spiral_position idx)"

text \<open>
  Lines 58 to 68: the line from \<open>previousMesh.position\<close> to \<open>mesh.position\<close>.  The six
  coordinates are stored in a \<^verbatim>\<open>Float32Array\<close>.
\<close>

definition new_line :: "object3d \<Rightarrow> object3d \<Rightarrow> object3d" where
  "new_line previousMesh mesh =
     Line [fround (vx (position previousMesh)), fround (vy (position previousMesh)),
           fround (vz (position previousMesh)),
           fround (vx (position mesh)), fround (vy (position mesh)),
           fround (vz (position mesh))]
          connector_color (Vector3 0 0 0)"

text \<open>
  The callback of \<^verbatim>\<open>blocks.forEach\<close>.  \<^verbatim>\<open>blockGroup.children[index - 1]\<close> is
  \<^verbatim>\<open>undefined\<close> out of range, and reading \<open>.position\<close> of it throws a \<^verbatim>\<open>TypeError\<close>.
\<close>

definition forEach_body :: "nat \<Rightarrow> Group \<Rightarrow> 'tx Block \<Rightarrow> nat \<Rightarrow> error + Group" where
  "forEach_body len blockGroup block idx =
     (let mesh = new_mesh block idx len;
          g = add blockGroup mesh
      in if idx > 0 then
           (if idx - 1 < length (children g) then
              Inr (add g (new_line (children g ! (idx - 1)) mesh))
            else Inl TypeError)
         else Inr g)"

fun forEach :: "nat \<Rightarrow> Group \<Rightarrow> 'tx Block list \<Rightarrow> nat \<Rightarrow> error + Group" where
  "forEach len blockGroup [] idx = Inr blockGroup"
| "forEach len blockGroup (block # rest) idx =
     (case forEach_body len blockGroup block idx of
        Inl e \<Rightarrow> Inl e
      | Inr g \<Rightarrow> forEach len g rest (Suc idx))"

definition build_blockGroup :: "'tx Block list \<Rightarrow> error + Group" where
  "build_blockGroup blocks = forEach (length blocks) new_Group blocks 0"

text \<open>The solid primitives and the connectors of a group, in the order of its children.\<close>

definition meshes :: "Group \<Rightarrow> object3d list" where
  "meshes g = filter is_Mesh (children g)"

definition connectors :: "Group \<Rightarrow> object3d list" where
  "connectors g = filter is_Line (children g)"

definition highlighted :: "object3d \<Rightarrow> bool" where
  "highlighted obj = (is_Mesh obj \<and> color (material obj) = highlight_color)"

text \<open>The two endpoints stored in a line's position buffer.\<close>

definition line_start :: "object3d \<Rightarrow> vector3" where
  "line_start obj = Vector3 (positions obj ! 0) (positions obj ! 1) (positions obj ! 2)"

definition line_end :: "object3d \<Rightarrow> vector3" where
  "line_end obj = Vector3 (positions obj ! 3) (positions obj ! 4) (positions obj ! 5)"

section \<open>The effect: bootstrap, render loop, resize and cleanup\<close>

text \<open>
  The result of \<^verbatim>\<open>clientWidth / clientHeight\<close>.  Both operands are non-negative integers;
  JavaScript gives \<^verbatim>\<open>NaN\<close> for \<open>0 / 0\<close> and \<^verbatim>\<open>Infinity\<close> for a positive number over \<open>0\<close>.
\<close>

datatype jsnum = Num real | Infinity | NaN

definition js_div :: "nat \<Rightarrow> nat \<Rightarrow> jsnum" where
  "js_div a b = (if b = 0 then (if a = 0 then NaN else Infinity) else Num (real a / real b))"

text \<open>
  The \<^verbatim>\<open>div\<close> that \<^verbatim>\<open>mountRef\<close> points to: its client size and its child elements.
  DOM elements are told apart by a number given at creation.
\<close>

record HostSurface =
  clientWidth :: nat
  clientHeight :: nat
  childNodes :: "nat list"

text \<open>
  What the effect shares with its environment: \<^verbatim>\<open>mountRef.current\<close>, whether
  \<^verbatim>\<open>handleResize\<close> is registered for \<^verbatim>\<open>resize\<close> on the window, the pending
  animation-frame requests for \<^verbatim>\<open>animate\<close> with the next request id, and the number of
  the next element the document creates.
\<close>

record world =
  mountRef_current :: "HostSurface option"
  resize_listener :: bool
  scheduled_frames :: "nat list"
  next_frame_id :: nat
  next_element :: nat

text \<open>
  \<open>projection\<close> holds the parameters the projection matrix was last computed from;
  \<open>look_target\<close> is the point the camera was last turned to.
\<close>

record PerspectiveCamera =
  fov :: real
  aspect :: jsnum
  near :: real
  far :: real
  camera_position :: vector3
  look_target :: vector3
  projection :: "real \<times> jsnum \<times> real \<times> real"

record WebGLRenderer =
  domElement :: nat
  antialias :: bool
  alpha :: bool
  render_size :: "nat \<times> nat"
  frames_drawn :: nat

text \<open>The children of the scene; \<open>BlockGroup\<close> stands for the reference to \<^verbatim>\<open>blockGroup\<close>.\<close>

datatype scene_child = AmbientLight nat | DirectionalLight nat real vector3 | BlockGroup

text \<open>The variables the closures of the effect share (lines 22 to 81).\<close>

record effect =
  scene :: "scene_child list"
  camera :: PerspectiveCamera
  renderer :: WebGLRenderer
  blockGroup :: Group
  frameId :: "nat option"

definition updateProjectionMatrix :: "PerspectiveCamera \<Rightarrow> PerspectiveCamera" where
  "updateProjectionMatrix c = c\<lparr>projection := (fov c, aspect c, near c, far c)\<rparr>"

definition new_PerspectiveCamera :: "real \<Rightarrow> jsnum \<Rightarrow> real \<Rightarrow> real \<Rightarrow> PerspectiveCamera" where
  "new_PerspectiveCamera f a n r =
     updateProjectionMatrix
       \<lparr>fov = f, aspect = a, near = n, far = r, camera_position = Vector3 0 0 0,
        look_target = Vector3 0 0 (-1), projection = (f, a, n, r)\<rparr>"

definition setSize :: "WebGLRenderer \<Rightarrow> nat \<Rightarrow> nat \<Rightarrow> WebGLRenderer" where
  "setSize r width height = r\<lparr>render_size := (width, height)\<rparr>"

definition render :: "WebGLRenderer \<Rightarrow> WebGLRenderer" where
  "render r = r\<lparr>frames_drawn := Suc (frames_drawn r)\<rparr>"

text \<open>
  \<^verbatim>\<open>appendChild\<close> moves a node that is already a child to the end; \<^verbatim>\<open>removeChild\<close>
  throws \<^verbatim>\<open>NotFoundError\<close> for a node that is not a child.
\<close>

definition appendChild :: "HostSurface \<Rightarrow> nat \<Rightarrow> HostSurface" where
  "appendChild h n = h\<lparr>childNodes := removeAll n (childNodes h) @ [n]\<rparr>"

definition removeChild :: "HostSurface \<Rightarrow> nat \<Rightarrow> error + HostSurface" where
  "removeChild h n =
     (if n \<in> set (childNodes h) then Inr (h\<lparr>childNodes := removeAll n (childNodes h)\<rparr>)
      else Inl NotFoundError)"

definition requestAnimationFrame :: "world \<Rightarrow> nat \<times> world" where
  "requestAnimationFrame w =
     (next_frame_id w,
      w\<lparr>scheduled_frames := scheduled_frames w @ [next_frame_id w],
        next_frame_id := Suc (next_frame_id w)\<rparr>)"

text \<open>Cancelling an id that is not pending, or \<^verbatim>\<open>undefined\<close>, does nothing.\<close>

definition cancelAnimationFrame :: "nat option \<Rightarrow> world \<Rightarrow> world" where
  "cancelAnimationFrame fid w =
     (case fid of
        None \<Rightarrow> w
      | Some i \<Rightarrow> w\<lparr>scheduled_frames := removeAll i (scheduled_frames w)\<rparr>)"

text \<open>The literal \<^verbatim>\<open>0.005\<close> of line 84 denotes the double nearest to 0.005.\<close>

definition rotation_increment :: real where
  "rotation_increment = double 0.005"

text \<open>\<^verbatim>\<open>blockGroup.rotation.y += d\<close>, an addition of doubles.\<close>

definition rotate_y :: "Group \<Rightarrow> real \<Rightarrow> Group" where
  "rotate_y g d =
     g\<lparr>rotation :=
         Vector3 (vx (rotation g)) (double_add (vy (rotation g)) d) (vz (rotation g))\<rparr>"

text \<open>Lines 82 to 86.\<close>

definition animate :: "world \<times> effect \<Rightarrow> world \<times> effect" where
  "animate s =
     (case s of (w, e) \<Rightarrow>
        (case requestAnimationFrame w of (fid, w') \<Rightarrow>
           (w', e\<lparr>frameId := Some fid,
                  blockGroup := rotate_y (blockGroup e) rotation_increment,
                  renderer := render (renderer e)\<rparr>)))"

text \<open>Lines 90 to 97.\<close>

definition handleResize :: "world \<times> effect \<Rightarrow> world \<times> effect" where
  "handleResize s =
     (case s of (w, e) \<Rightarrow>
        (case mountRef_current w of
           None \<Rightarrow> (w, e)
         | Some h \<Rightarrow>
             (let width = clientWidth h;
                  height = clientHeight h
              in (w, e\<lparr>renderer := setSize (renderer e) width height,
                       camera := updateProjectionMatrix
                                   ((camera e)\<lparr>aspect := js_div width height\<rparr>)\<rparr>))))"

text \<open>
  Lines 22 to 78, for the host surface \<open>h\<close> that \<^verbatim>\<open>mountRef.current\<close> holds: camera,
  renderer (a new canvas is 300 by 150 until sized), lights, block group, camera placement.
  The state is the one in which line 87 calls \<^verbatim>\<open>animate\<close> for the first time.
\<close>

definition bootstrap :: "world \<Rightarrow> HostSurface \<Rightarrow> 'tx Block list \<Rightarrow> error + world \<times> effect" where
  "bootstrap w h blocks =
     (let cam = new_PerspectiveCamera 75 (js_div (clientWidth h) (clientHeight h)) 0.1 1000;
          r = setSize \<lparr>domElement = next_element w, antialias = True, alpha = True,
                       render_size = (300, 150), frames_drawn = 0\<rparr>
                (clientWidth h) (clientHeight h);
          w1 = w\<lparr>next_element := Suc (next_element w),
                  mountRef_current := Some (appendChild h (domElement r))\<rparr>
      in case build_blockGroup blocks of
           Inl err \<Rightarrow> Inl err
         | Inr g \<Rightarrow>
             Inr (w1,
                  \<lparr>scene = [AmbientLight 4210752, DirectionalLight 16777215 1 (Vector3 1 1 1),
                            BlockGroup],
                   camera = cam\<lparr>camera_position := Vector3 0 5 10,
                                 look_target := Vector3 0 0 0\<rparr>,
                   renderer = r,
                   blockGroup = g,
                   frameId = None\<rparr>))"

text \<open>
  The body of \<^verbatim>\<open>useEffect\<close> (lines 19 to 98).  The result holds the closure variables when
  the effect ran through, and \<open>None\<close> for them after the early return of line 19.
\<close>

definition useEffect :: "world \<Rightarrow> 'tx Block list \<Rightarrow> error + world \<times> effect option" where
  "useEffect w blocks =
     (case mountRef_current w of
        None \<Rightarrow> Inr (w, None)
      | Some h \<Rightarrow>
          (case bootstrap w h blocks of
             Inl err \<Rightarrow> Inl err
           | Inr s0 \<Rightarrow>
               (case animate s0 of (w2, e) \<Rightarrow>
                  Inr (w2\<lparr>resize_listener := True\<rparr>, Some e))))"

text \<open>
  The function the effect returns (lines 101 to 107).  The first component of the result is
  the exception the call ends with, if any; the state is the one the call leaves behind.
\<close>

definition cleanup :: "world \<times> effect \<Rightarrow> error option \<times> world \<times> effect" where
  "cleanup s =
     (case s of (w, e) \<Rightarrow>
        (let w1 = w\<lparr>resize_listener := False\<rparr>;
             w2 = cancelAnimationFrame (frameId e) w1
         in case mountRef_current w2 of
              None \<Rightarrow> (None, w2, e)
            | Some h \<Rightarrow>
                (case removeChild h (domElement (renderer e)) of
                   Inl err \<Rightarrow> (Some err, w2, e)
                 | Inr h' \<Rightarrow> (None, w2\<lparr>mountRef_current := Some h'\<rparr>, e))))"

text \<open>
  What happens to a mounted instance: the browser runs the oldest pending frame request; the
  host surface gets a new client size and the window dispatches \<^verbatim>\<open>resize\<close>; React clears
  \<^verbatim>\<open>mountRef.current\<close> when the element is unmounted.
\<close>

datatype event = AnimationFrame | WindowResize nat nat | RefCleared

fun step :: "world \<times> effect \<Rightarrow> event \<Rightarrow> world \<times> effect" where
  "step (w, e) AnimationFrame =
     (case scheduled_frames w of
        [] \<Rightarrow> (w, e)
      | fid # rest \<Rightarrow> animate (w\<lparr>scheduled_frames := rest\<rparr>, e))"
| "step (w, e) (WindowResize width height) =
     (let w' = w\<lparr>mountRef_current :=
                  map_option (\<lambda>h. h\<lparr>clientWidth := width, clientHeight := height\<rparr>)
                    (mountRef_current w)\<rparr>
      in if resize_listener w' then handleResize (w', e) else (w', e))"
| "step (w, e) RefCleared = (w\<lparr>mountRef_current := None\<rparr>, e)"

definition run :: "world \<times> effect \<Rightarrow> event list \<Rightarrow> world \<times> effect" where
  "run s evs = foldl step s evs"

section \<open>Observations and examples\<close>

definition count_highlighted :: "Group \<Rightarrow> nat" where
  "count_highlighted g = length (filter highlighted (meshes g))"

definition mesh_position :: "nat \<Rightarrow> Group \<Rightarrow> vector3" where
  "mesh_position i g = position (meshes g ! i)"

text \<open>Connector \<open>i\<close>, for \<open>i\<close> from 1, is the line added in the iteration of block \<open>i\<close>.\<close>

definition connector_start :: "nat \<Rightarrow> Group \<Rightarrow> vector3" where
  "connector_start i g = line_start (connectors g ! (i - 1))"

definition connector_end :: "nat \<Rightarrow> Group \<Rightarrow> vector3" where
  "connector_end i g = line_end (connectors g ! (i - 1))"

text \<open>The red, green and blue bytes of a colour given as \<^verbatim>\<open>0xRRGGBB\<close>.\<close>

definition red :: "nat \<Rightarrow> nat" where
  "red c = c div 65536 mod 256"

definition green :: "nat \<Rightarrow> nat" where
  "green c = c div 256 mod 256"

definition blue :: "nat \<Rightarrow> nat" where
  "blue c = c mod 256"

text \<open>The three coordinates of a vector as a \<^verbatim>\<open>Float32Array\<close> holds them.\<close>

definition fround_vector :: "vector3 \<Rightarrow> vector3" where
  "fround_vector v = Vector3 (fround (vx v)) (fround (vy v)) (fround (vz v))"

text \<open>The value of \<open>rotation.y\<close> after \<open>k\<close> additions of the increment, starting from 0.\<close>

fun accumulated :: "nat \<Rightarrow> real" where
  "accumulated 0 = 0"
| "accumulated (Suc k) = double_add (accumulated k) rotation_increment"

text \<open>The rotation of the block group after \<open>k\<close> render cycles from a bootstrapped state.\<close>

definition rotation_after :: "nat \<Rightarrow> error + world \<times> effect \<Rightarrow> error + vector3" where
  "rotation_after k r =
     map_sum id (\<lambda>s. rotation (blockGroup (snd ((animate ^^ k) s)))) r"

text \<open>The closure variables of an effect that ran through.\<close>

definition mounted :: "error + world \<times> effect option \<Rightarrow> (world \<times> effect) option" where
  "mounted r = (case r of Inr (w, Some e) \<Rightarrow> Some (w, e) | _ \<Rightarrow> None)"

text \<open>The exceptions of two calls of \<open>cleanup\<close> in succession.\<close>

definition teardown_twice :: "world \<times> effect \<Rightarrow> error option \<times> error option" where
  "teardown_twice s = (fst (cleanup s), fst (cleanup (snd (cleanup s))))"

definition example_block :: "int \<Rightarrow> unit Block" where
  "example_block i = \<lparr>index = i, hash = ''h'', previous_hash = ''p'', transactions = []\<rparr>"

definition example_host :: "nat \<Rightarrow> nat \<Rightarrow> HostSurface" where
  "example_host width height = \<lparr>clientWidth = width, clientHeight = height, childNodes = []\<rparr>"

definition example_world :: "HostSurface option \<Rightarrow> world" where
  "example_world h =
     \<lparr>mountRef_current = h, resize_listener = False, scheduled_frames = [],
      next_frame_id = 1, next_element = 0\<rparr>"

section \<open>Invariants\<close>

text \<open>
  What holds of the group after the loop has run over the blocks \<open>bs\<close>: the children are
  mesh 0, then mesh \<open>i\<close> and line \<open>i\<close> for each later block, and the line of block \<open>i\<close>
  starts at the position of the child at \<open>i - 1\<close>.
\<close>

definition built :: "nat \<Rightarrow> 'tx Block list \<Rightarrow> Group \<Rightarrow> bool" where
  "built len bs g \<longleftrightarrow>
     rotation g = Vector3 0 0 0 \<and>
     length (children g) = 2 * length bs - 1 \<and>
     (\<forall>i<length bs. children g ! (2 * i - 1) = new_mesh (bs ! i) i len) \<and>
     (\<forall>i<length bs. 0 < i \<longrightarrow>
        children g ! (2 * i) = new_line (children g ! (i - 1)) (new_mesh (bs ! i) i len)) \<and>
     filter is_Mesh (children g) = map (\<lambda>i. new_mesh (bs ! i) i len) [0..<length bs] \<and>
     filter is_Line (children g) =
       map (\<lambda>i. new_line (children g ! (i - 1)) (new_mesh (bs ! i) i len)) [1..<length bs]"

text \<open>
  What holds of a mounted instance between events: exactly the request stored in
  \<^verbatim>\<open>frameId\<close> is pending, and the canvas is a child of the host surface while it is attached.
\<close>

definition running :: "world \<times> effect \<Rightarrow> bool" where
  "running s \<longleftrightarrow>
     map Some (scheduled_frames (fst s)) = [frameId (snd s)] \<and>
     (case mountRef_current (fst s) of
        None \<Rightarrow> True
      | Some h \<Rightarrow> domElement (renderer (snd s)) \<in> set (childNodes h))"

section \<open>The loop, one block at a time\<close>

lemma forEach_append:
  "forEach len g (bs @ cs) idx =
     (case forEach len g bs idx of
        Inl e \<Rightarrow> Inl e
      | Inr g' \<Rightarrow> forEach len g' cs (idx + length bs))"
  by (induction bs arbitrary: g idx) (auto split: sum.splits)

lemma forEach_snoc:
  "forEach len g (bs @ [b]) idx =
     (case forEach len g bs idx of
        Inl e \<Rightarrow> Inl e
      | Inr g' \<Rightarrow> forEach_body len g' b (idx + length bs))"
  by (simp add: forEach_append split: sum.splits)

lemma forEach_body_children:
  assumes "length (children g) = 2 * n - 1"
  shows "forEach_body len g b n =
     Inr (g\<lparr>children := children g @
        (if n = 0 then [new_mesh b n len]
         else [new_mesh b n len, new_line (children g ! (n - 1)) (new_mesh b n len)])\<rparr>)"
proof (cases "n = 0")
  case True
  then show ?thesis by (simp add: forEach_body_def add_def)
next
  case False
  with assms have "n - 1 < length (children g)" by arith
  with False show ?thesis
    by (simp add: forEach_body_def add_def Let_def nth_append)
qed

lemma built_Nil: "built len [] new_Group"
  by (simp add: built_def new_Group_def)

lemma built_snoc:
  assumes "built len bs g"
  shows "\<exists>g'. forEach_body len g b (length bs) = Inr g' \<and> built len (bs @ [b]) g'"
proof (cases "length bs = 0")
  case True
  with assms have "children g = []" by (simp add: built_def)
  with True assms show ?thesis
    by (simp add: forEach_body_children built_def new_mesh_def)
next
  case False
  define n where "n = length bs"
  define m where "m = new_mesh b n len"
  define l where "l = new_line (children g ! (n - 1)) m"
  define g' where "g' = g\<lparr>children := children g @ [m, l]\<rparr>"
  from False have n: "0 < n" by (simp add: n_def)
  from assms have len_g: "length (children g) = 2 * n - 1"
    by (simp add: built_def n_def)
  have step: "forEach_body len g b (length bs) = Inr g'"
    using n len_g by (simp add: forEach_body_children g'_def m_def l_def n_def)
  have ch: "children g' = children g @ [m, l]" by (simp add: g'_def)
  have lg': "length (children g') = 2 * length (bs @ [b]) - 1"
    using n len_g by (simp add: ch n_def)
  have old: "children g' ! p = children g ! p" if "p < 2 * n - 1" for p
    using that len_g by (simp add: ch nth_append)
  have at_m: "children g' ! (2 * n - 1) = m"
    using len_g by (simp add: ch nth_append)
  have at_l: "children g' ! (2 * n) = l"
  proof -
    have "2 * n = Suc (length (children g))" using len_g n by arith
    then show ?thesis by (simp add: ch nth_append)
  qed
  have meshes_ok: "\<forall>i<length (bs @ [b]). children g' ! (2 * i - 1) = new_mesh ((bs @ [b]) ! i) i len"
  proof (intro allI impI)
    fix i assume i: "i < length (bs @ [b])"
    show "children g' ! (2 * i - 1) = new_mesh ((bs @ [b]) ! i) i len"
    proof (cases "i = n")
      case True
      then show ?thesis using at_m by (simp add: m_def n_def)
    next
      case False
      with i have lt: "i < n" by (simp add: n_def)
      then have "2 * i - 1 < 2 * n - 1" by arith
      then have "children g' ! (2 * i - 1) = children g ! (2 * i - 1)" by (rule old)
      also have "\<dots> = new_mesh (bs ! i) i len"
        using assms lt by (simp add: built_def n_def)
      finally show ?thesis using lt by (simp add: nth_append n_def)
    qed
  qed
  have lines_ok: "\<forall>i<length (bs @ [b]). 0 < i \<longrightarrow>
      children g' ! (2 * i) = new_line (children g' ! (i - 1)) (new_mesh ((bs @ [b]) ! i) i len)"
  proof (intro allI impI)
    fix i assume i: "i < length (bs @ [b])" and pos: "0 < i"
    show "children g' ! (2 * i) = new_line (children g' ! (i - 1)) (new_mesh ((bs @ [b]) ! i) i len)"
    proof (cases "i = n")
      case True
      have "n - 1 < 2 * n - 1" using n by arith
      then have "children g' ! (n - 1) = children g ! (n - 1)" by (rule old)
      then show ?thesis using True at_l by (simp add: l_def m_def n_def)
    next
      case False
      with i have lt: "i < n" by (simp add: n_def)
      have "2 * i < 2 * n - 1" using lt by arith
      then have a: "children g' ! (2 * i) = children g ! (2 * i)" by (rule old)
      have "i - 1 < 2 * n - 1" using lt by arith
      then have b: "children g' ! (i - 1) = children g ! (i - 1)" by (rule old)
      have "children g ! (2 * i) = new_line (children g ! (i - 1)) (new_mesh (bs ! i) i len)"
        using assms lt pos by (simp add: built_def n_def)
      with a b show ?thesis using lt by (simp add: nth_append n_def)
    qed
  qed
  have filt_m: "filter is_Mesh (children g') =
      map (\<lambda>i. new_mesh ((bs @ [b]) ! i) i len) [0..<length (bs @ [b])]"
  proof -
    have "filter is_Mesh (children g) = map (\<lambda>i. new_mesh (bs ! i) i len) [0..<length bs]"
      using assms by (simp add: built_def)
    also have "\<dots> = map (\<lambda>i. new_mesh ((bs @ [b]) ! i) i len) [0..<length bs]"
      by (simp add: nth_append)
    finally show ?thesis
      by (simp add: ch m_def l_def new_mesh_def new_line_def n_def)
  qed
  have filt_l: "filter is_Line (children g') =
      map (\<lambda>i. new_line (children g' ! (i - 1)) (new_mesh ((bs @ [b]) ! i) i len))
        [1..<length (bs @ [b])]"
  proof -
    have "filter is_Line (children g) =
        map (\<lambda>i. new_line (children g ! (i - 1)) (new_mesh (bs ! i) i len)) [1..<n]"
      using assms by (simp add: built_def n_def)
    also have "\<dots> =
        map (\<lambda>i. new_line (children g' ! (i - 1)) (new_mesh ((bs @ [b]) ! i) i len)) [1..<n]"
    proof (rule map_cong [OF refl])
      fix i assume "i \<in> set [1..<n]"
      then have lt: "i < n" by simp
      then have "i - 1 < 2 * n - 1" by arith
      then have "children g' ! (i - 1) = children g ! (i - 1)" by (rule old)
      then show "new_line (children g ! (i - 1)) (new_mesh (bs ! i) i len) =
          new_line (children g' ! (i - 1)) (new_mesh ((bs @ [b]) ! i) i len)"
        using lt by (simp add: nth_append n_def)
    qed
    finally have prefix: "filter is_Line (children g) =
        map (\<lambda>i. new_line (children g' ! (i - 1)) (new_mesh ((bs @ [b]) ! i) i len)) [1..<n]" .
    have "n - 1 < 2 * n - 1" using n by arith
    then have "children g' ! (n - 1) = children g ! (n - 1)" by (rule old)
    then have last: "l = new_line (children g' ! (n - 1)) (new_mesh ((bs @ [b]) ! n) n len)"
      by (simp add: l_def m_def n_def)
    have "[1..<Suc n] = [1..<n] @ [n]"
      using n by simp
    moreover have "length (bs @ [b]) = Suc n"
      by (simp add: n_def)
    moreover have "filter is_Line (children g') = filter is_Line (children g) @ [l]"
      by (simp add: ch m_def l_def new_mesh_def new_line_def)
    ultimately show ?thesis using prefix last by simp
  qed
  have rot: "rotation g' = Vector3 0 0 0"
    using assms by (simp add: g'_def built_def)
  have "built len (bs @ [b]) g'"
    unfolding built_def using rot lg' meshes_ok lines_ok filt_m filt_l by blast
  with step show ?thesis by blast
qed

lemma forEach_built: "\<exists>g. forEach len new_Group bs 0 = Inr g \<and> built len bs g"
proof (induction bs rule: rev_induct)
  case Nil
  show ?case by (simp add: built_Nil)
next
  case (snoc b bs)
  then obtain g where g: "forEach len new_Group bs 0 = Inr g" "built len bs g" by blast
  from built_snoc [OF g(2)] obtain g' where
    "forEach_body len g b (length bs) = Inr g'" "built len (bs @ [b]) g'" by blast
  with g show ?case by (simp add: forEach_snoc)
qed

lemma build_built: "\<exists>g. build_blockGroup blocks = Inr g \<and> built (length blocks) blocks g"
  unfolding build_blockGroup_def by (rule forEach_built)

lemmas build_eval = build_blockGroup_def forEach_body_def add_def new_Group_def new_mesh_def
  new_line_def spiral_position_def block_material_def meshes_def connectors_def Let_def

lemmas lifecycle_eval = useEffect_def bootstrap_def animate_def handleResize_def cleanup_def
  requestAnimationFrame_def cancelAnimationFrame_def appendChild_def removeChild_def
  setSize_def render_def rotate_y_def updateProjectionMatrix_def new_PerspectiveCamera_def
  js_div_def example_world_def example_host_def run_def

section \<open>Evaluating the rounding\<close>

lemma floor_log2_eq:
  assumes "0 < x" "2 powr of_int e \<le> x" "x < 2 powr of_int (e + 1)"
  shows "\<lfloor>log 2 x\<rfloor> = e"
proof -
  have "of_int e \<le> log 2 x"
    using assms(1,2) by (simp add: le_log_iff)
  moreover have "log 2 x < of_int (e + 1)"
    using assms(1,3) by (simp add: log_less_iff)
  ultimately show ?thesis by (simp add: floor_eq_iff)
qed

lemma binary_round_below_one:
  assumes "1 / 2 ^ n \<le> \<bar>x\<bar>" "\<bar>x\<bar> < 2 / 2 ^ n" "emin \<le> - int n" "0 < p"
  shows "binary_round p emin x =
    of_int (round_half_even (x * 2 ^ (n + p - 1))) / 2 ^ (n + p - 1)"
proof -
  have "0 < 1 / (2::real) ^ n" by simp
  with assms(1) have pos: "0 < \<bar>x\<bar>" by linarith
  then have nz: "x \<noteq> 0" by simp
  have p1: "2 powr of_int (- int n) = 1 / (2::real) ^ n"
    by (simp add: powr_minus powr_realpow inverse_eq_divide)
  have p2: "2 powr of_int (- int n + 1) = 2 / (2::real) ^ n"
    by (simp add: powr_diff powr_realpow)
  have a: "2 powr of_int (- int n) \<le> \<bar>x\<bar>"
    unfolding p1 by (rule assms(1))
  have b: "\<bar>x\<bar> < 2 powr of_int (- int n + 1)"
    unfolding p2 by (rule assms(2))
  have "\<lfloor>log 2 \<bar>x\<bar>\<rfloor> = - int n"
    using pos a b by (rule floor_log2_eq)
  then have e: "max \<lfloor>log 2 \<bar>x\<bar>\<rfloor> emin = - int n" using assms(3) by simp
  have "- int n - int p + 1 = - int (n + p - 1)" using assms(4) by simp
  then have u: "2 powr of_int (- int n - int p + 1) = 1 / (2::real) ^ (n + p - 1)"
    by (simp only: powr_minus powr_realpow of_int_minus of_int_of_nat_eq inverse_eq_divide)
  show ?thesis
    unfolding binary_round_def Let_def e u using nz by simp
qed

lemma double_below_one:
  assumes "1 / 2 ^ n \<le> \<bar>x\<bar>" "\<bar>x\<bar> < 2 / 2 ^ n" "n \<le> 1022"
  shows "double x = of_int (round_half_even (x * 2 ^ (n + 52))) / 2 ^ (n + 52)"
proof -
  have "- 1022 \<le> - int n" using assms(3) by simp
  from binary_round_below_one [OF assms(1,2) this, of 53] show ?thesis
    by (simp add: double_def add.commute)
qed

lemma fround_zero: "fround 0 = 0"
  by (simp add: fround_def binary_round_def)

text \<open>
  The double \<open>0.005\<close> and its first six sums; the last one is not the double that the
  product of 6 and \<open>0.005\<close> gives.
\<close>

lemma double_lit: "double 0.005 = 5764607523034235 / 2 ^ 60"
proof -
  have "double 0.005 = of_int (round_half_even (0.005 * 2 ^ (8 + 53 - 1))) / 2 ^ (8 + 53 - 1)"
    unfolding double_def by (rule binary_round_below_one) simp_all
  also have "round_half_even (0.005 * 2 ^ (8 + 53 - 1)) = 5764607523034235"
    by (simp add: round_half_even_def Let_def)
  finally show ?thesis by simp
qed

lemma double_add_step1:
  "double_add (0) (5764607523034235 / 2 ^ 60) = 5764607523034235 / 2 ^ 60"
proof -
  have "double_add (0) (5764607523034235 / 2 ^ 60) =
      of_int (round_half_even ((0 + 5764607523034235 / 2 ^ 60) * 2 ^ (8 + 52))) / 2 ^ (8 + 52)"
    unfolding double_add_def by (rule double_below_one) simp_all
  also have "round_half_even ((0 + 5764607523034235 / 2 ^ 60) * 2 ^ (8 + 52)) = 5764607523034235"
    by (simp add: round_half_even_def Let_def)
  finally show ?thesis by simp
qed

lemma double_add_step2:
  "double_add (5764607523034235 / 2 ^ 60) (5764607523034235 / 2 ^ 60) = 5764607523034235 / 2 ^ 59"
proof -
  have "double_add (5764607523034235 / 2 ^ 60) (5764607523034235 / 2 ^ 60) =
      of_int (round_half_even ((5764607523034235 / 2 ^ 60 + 5764607523034235 / 2 ^ 60) * 2 ^ (7 + 52))) / 2 ^ (7 + 52)"
    unfolding double_add_def by (rule double_below_one) simp_all
  also have "round_half_even ((5764607523034235 / 2 ^ 60 + 5764607523034235 / 2 ^ 60) * 2 ^ (7 + 52)) = 5764607523034235"
    by (simp add: round_half_even_def Let_def)
  finally show ?thesis by simp
qed

lemma double_add_step3:
  "double_add (5764607523034235 / 2 ^ 59) (5764607523034235 / 2 ^ 60) = 8646911284551352 / 2 ^ 59"
proof -
  have "double_add (5764607523034235 / 2 ^ 59) (5764607523034235 / 2 ^ 60) =
      of_int (round_half_even ((5764607523034235 / 2 ^ 59 + 5764607523034235 / 2 ^ 60) * 2 ^ (7 + 52))) / 2 ^ (7 + 52)"
    unfolding double_add_def by (rule double_below_one) simp_all
  also have "round_half_even ((5764607523034235 / 2 ^ 59 + 5764607523034235 / 2 ^ 60) * 2 ^ (7 + 52)) = 8646911284551352"
    by (simp add: round_half_even_def Let_def)
  finally show ?thesis by simp
qed

lemma double_add_step4:
  "double_add (8646911284551352 / 2 ^ 59) (5764607523034235 / 2 ^ 60) = 5764607523034235 / 2 ^ 58"
proof -
  have "double_add (8646911284551352 / 2 ^ 59) (5764607523034235 / 2 ^ 60) =
      of_int (round_half_even ((8646911284551352 / 2 ^ 59 + 5764607523034235 / 2 ^ 60) * 2 ^ (6 + 52))) / 2 ^ (6 + 52)"
    unfolding double_add_def by (rule double_below_one) simp_all
  also have "round_half_even ((8646911284551352 / 2 ^ 59 + 5764607523034235 / 2 ^ 60) * 2 ^ (6 + 52)) = 5764607523034235"
    by (simp add: round_half_even_def Let_def)
  finally show ?thesis by simp
qed

lemma double_add_step5:
  "double_add (5764607523034235 / 2 ^ 58) (5764607523034235 / 2 ^ 60) = 7205759403792794 / 2 ^ 58"
proof -
  have "double_add (5764607523034235 / 2 ^ 58) (5764607523034235 / 2 ^ 60) =
      of_int (round_half_even ((5764607523034235 / 2 ^ 58 + 5764607523034235 / 2 ^ 60) * 2 ^ (6 + 52))) / 2 ^ (6 + 52)"
    unfolding double_add_def by (rule double_below_one) simp_all
  also have "round_half_even ((5764607523034235 / 2 ^ 58 + 5764607523034235 / 2 ^ 60) * 2 ^ (6 + 52)) = 7205759403792794"
    by (simp add: round_half_even_def Let_def)
  finally show ?thesis by simp
qed

lemma double_add_step6:
  "double_add (7205759403792794 / 2 ^ 58) (5764607523034235 / 2 ^ 60) = 8646911284551353 / 2 ^ 58"
proof -
  have "double_add (7205759403792794 / 2 ^ 58) (5764607523034235 / 2 ^ 60) =
      of_int (round_half_even ((7205759403792794 / 2 ^ 58 + 5764607523034235 / 2 ^ 60) * 2 ^ (6 + 52))) / 2 ^ (6 + 52)"
    unfolding double_add_def by (rule double_below_one) simp_all
  also have "round_half_even ((7205759403792794 / 2 ^ 58 + 5764607523034235 / 2 ^ 60) * 2 ^ (6 + 52)) = 8646911284551353"
    by (simp add: round_half_even_def Let_def)
  finally show ?thesis by simp
qed

lemma double_product_six:
  "double (6 * (5764607523034235 / 2 ^ 60)) = 8646911284551352 / 2 ^ 58"
proof -
  have "double (6 * (5764607523034235 / 2 ^ 60)) =
      of_int (round_half_even (6 * (5764607523034235 / 2 ^ 60) * 2 ^ (6 + 52))) / 2 ^ (6 + 52)"
    by (rule double_below_one) simp_all
  also have "round_half_even (6 * (5764607523034235 / 2 ^ 60) * 2 ^ (6 + 52)) = 8646911284551352"
    by (simp add: round_half_even_def Let_def)
  finally show ?thesis by simp
qed

lemma rotation_increment_value: "rotation_increment = 5764607523034235 / 2 ^ 60"
  unfolding rotation_increment_def by (rule double_lit)

lemma accumulated_one: "accumulated (Suc 0) = rotation_increment"
  by (simp only: accumulated.simps rotation_increment_value double_add_step1)

lemma accumulated_three: "accumulated 3 = 8646911284551352 / 2 ^ 59"
proof -
  have "accumulated 3 =
    double_add (double_add (double_add 0 rotation_increment) rotation_increment)
      rotation_increment"
    by (simp add: eval_nat_numeral)
  then show ?thesis
    by (simp only: rotation_increment_value double_add_step1 double_add_step2
        double_add_step3)
qed

lemma accumulated_six: "accumulated 6 = 8646911284551353 / 2 ^ 58"
proof -
  have "accumulated 6 =
    double_add (double_add (double_add (double_add (double_add (double_add 0
      rotation_increment) rotation_increment) rotation_increment) rotation_increment)
      rotation_increment) rotation_increment"
    by (simp add: eval_nat_numeral)
  then show ?thesis
    by (simp only: rotation_increment_value double_add_step1 double_add_step2
        double_add_step3 double_add_step4 double_add_step5 double_add_step6)
qed

lemma product_six: "double (6 * rotation_increment) = 8646911284551352 / 2 ^ 58"
  unfolding rotation_increment_value by (rule double_product_six)

section \<open>Claims about the geometry builder\<close>

lemma mesh_nth:
  assumes "build_blockGroup blocks = Inr g" "i < length blocks"
  shows "meshes g ! i = new_mesh (blocks ! i) i (length blocks)"
proof -
  from build_built [of blocks] assms(1) have "built (length blocks) blocks g" by simp
  then have "meshes g = map (\<lambda>i. new_mesh (blocks ! i) i (length blocks)) [0..<length blocks]"
    by (simp add: built_def meshes_def)
  with assms(2) show ?thesis by simp
qed

lemma connector_nth:
  assumes "build_blockGroup blocks = Inr g" "0 < i" "i < length blocks"
  shows "connectors g ! (i - 1) =
    new_line (children g ! (i - 1)) (new_mesh (blocks ! i) i (length blocks))"
proof -
  let ?n = "length blocks"
  from build_built [of blocks] assms(1) have "built ?n blocks g" by simp
  then have "connectors g =
      map (\<lambda>i. new_line (children g ! (i - 1)) (new_mesh (blocks ! i) i ?n)) [1..<?n]"
    by (simp add: built_def connectors_def)
  moreover have "i - 1 < length [1..<?n]" using assms(2,3) by simp
  moreover have "[1..<?n] ! (i - 1) = i" using assms(2,3) by simp
  ultimately show ?thesis by simp
qed

lemma spiral_position_eq:
  "spiral_position i = Vector3 (3 * cos (real i * 0.5)) (real i * 0.5) (3 * sin (real i * 0.5))"
  unfolding spiral_position_def Let_def by (simp only: mult.commute [of _ 3])

text \<open>
  C1: for every input sequence of N blocks the builder returns a group, without error, that
  holds exactly N meshes and exactly max(0, N - 1) lines; for N = 0 the group is the empty
  group.  For N = 1 this is one mesh and no line.
\<close>

theorem C1_primitive_counts:
  "\<exists>g. build_blockGroup blocks = Inr g \<and>
       length (meshes g) = length blocks \<and>
       int (length (connectors g)) = max 0 (int (length blocks) - 1) \<and>
       build_blockGroup ([] :: 'tx Block list) = Inr new_Group \<and>
       children new_Group = []"
proof -
  from build_built [of blocks] obtain g where
    g: "build_blockGroup blocks = Inr g" "built (length blocks) blocks g" by blast
  from g(2) have "length (meshes g) = length blocks"
    by (simp add: built_def meshes_def)
  moreover from g(2) have "length (connectors g) = length blocks - 1"
    by (simp add: built_def connectors_def)
  then have "int (length (connectors g)) = max 0 (int (length blocks) - 1)"
    by simp
  moreover have "build_blockGroup ([] :: 'tx Block list) = Inr new_Group"
    by (simp add: build_blockGroup_def)
  ultimately show ?thesis using g(1) by (simp add: new_Group_def)
qed

theorem C1_single_block:
  "\<exists>g. build_blockGroup [example_block 7] = Inr g \<and>
       length (meshes g) = 1 \<and> length (connectors g) = 0"
  using C1_primitive_counts [of "[example_block 7]"] by auto

text \<open>
  C3: for every input sequence and every array position i, the mesh of the block at
  position i is placed at (3 * cos (i * 0.5), i * 0.5, 3 * sin (i * 0.5)).
\<close>

theorem C3_spiral_placement:
  assumes "i < length blocks"
  shows "\<exists>g. build_blockGroup blocks = Inr g \<and>
           meshes g ! i = new_mesh (blocks ! i) i (length blocks) \<and>
           position (meshes g ! i) =
             Vector3 (3 * cos (real i * 0.5)) (real i * 0.5) (3 * sin (real i * 0.5))"
proof -
  from build_built [of blocks] obtain g where g: "build_blockGroup blocks = Inr g" by blast
  have "position (new_mesh (blocks ! i) i (length blocks)) = spiral_position i"
    by (simp add: new_mesh_def)
  with mesh_nth [OF g assms] g show ?thesis
    by (simp add: spiral_position_eq)
qed

theorem C3_three_blocks:
  "\<exists>g. build_blockGroup [example_block 0, example_block 1, example_block 2] = Inr g \<and>
       position (meshes g ! 1) = Vector3 (3 * cos 0.5) 0.5 (3 * sin 0.5)"
  using C3_spiral_placement [of 1 "[example_block 0, example_block 1, example_block 2]"]
  by auto

text \<open>
  C4: for every input sequence of N blocks, the mesh of a block has the highlight colour if
  and only if the block's \<open>index\<close> field equals N - 1, and the base colour otherwise; the
  comparison reads the field, not the array position.  Each of the three colour bytes of
  the highlight colour is above that of the base colour, and both materials are
  transparent with opacity 0.8.
\<close>

theorem C4_highlight_rule:
  assumes "i < length blocks"
  shows "\<exists>g. build_blockGroup blocks = Inr g \<and>
           (highlighted (meshes g ! i) \<longleftrightarrow> index (blocks ! i) = int (length blocks) - 1) \<and>
           color (material (meshes g ! i)) =
             (if index (blocks ! i) = int (length blocks) - 1 then highlight_color
              else base_color) \<and>
           transparent (material (meshes g ! i)) \<and>
           opacity (material (meshes g ! i)) = 0.8 \<and>
           red base_color < red highlight_color \<and>
           green base_color < green highlight_color \<and>
           blue base_color < blue highlight_color"
proof -
  from build_built [of blocks] obtain g where g: "build_blockGroup blocks = Inr g" by blast
  have "red base_color < red highlight_color \<and> green base_color < green highlight_color \<and>
        blue base_color < blue highlight_color"
    by (simp add: red_def green_def blue_def base_color_def highlight_color_def)
  with mesh_nth [OF g assms] show ?thesis
    using g by (simp add: new_mesh_def block_material_def highlighted_def
        base_color_def highlight_color_def)
qed

theorem C4_three_blocks:
  "\<exists>g. build_blockGroup [example_block 0, example_block 1, example_block 2] = Inr g \<and>
       highlighted (meshes g ! 2) \<and> \<not> highlighted (meshes g ! 1) \<and>
       color (material (meshes g ! 1)) = base_color \<and>
       opacity (material (meshes g ! 2)) = 0.8"
  using C4_highlight_rule [of 2 "[example_block 0, example_block 1, example_block 2]"]
    C4_highlight_rule [of 1 "[example_block 0, example_block 1, example_block 2]"]
  by (auto simp: example_block_def)

lemma highlighted_new_mesh:
  "highlighted (new_mesh b i n) \<longleftrightarrow> index b = int n - 1"
  by (simp add: highlighted_def new_mesh_def block_material_def highlight_color_def
      base_color_def)

lemma count_highlighted_eq:
  assumes "build_blockGroup blocks = Inr g"
  shows "count_highlighted g =
    length (filter (\<lambda>b. index b = int (length blocks) - 1) blocks)"
proof -
  let ?n = "length blocks"
  from build_built [of blocks] assms have "built ?n blocks g" by simp
  then have "meshes g = map (\<lambda>i. new_mesh (blocks ! i) i ?n) [0..<?n]"
    by (simp add: built_def meshes_def)
  then have "count_highlighted g =
      length (filter (\<lambda>i. index (blocks ! i) = int ?n - 1) [0..<?n])"
    by (simp add: count_highlighted_def filter_map o_def highlighted_new_mesh)
  also have "\<dots> = length (filter (\<lambda>b. index b = int ?n - 1) (map ((!) blocks) [0..<?n]))"
    by (simp add: filter_map o_def)
  finally show ?thesis by (simp add: map_nth)
qed

lemma filter_last_upt: "filter (\<lambda>i. i = n) [0..<Suc n] = [n]"
  by simp

lemma count_in_order:
  assumes "\<forall>i<length blocks. index (blocks ! i) = int i"
  shows "length (filter (\<lambda>b. index b = int (length blocks) - 1) blocks) =
    (if blocks = [] then 0 else 1)"
proof (cases "blocks = []")
  case True
  then show ?thesis by simp
next
  case False
  let ?n = "length blocks"
  from False obtain k where k: "?n = Suc k" by (cases blocks) auto
  have "filter (\<lambda>b. index b = int ?n - 1) (map ((!) blocks) [0..<?n]) =
      map ((!) blocks) (filter (\<lambda>i. index (blocks ! i) = int ?n - 1) [0..<?n])"
    by (simp add: filter_map o_def)
  also have "filter (\<lambda>i. index (blocks ! i) = int ?n - 1) [0..<?n] =
      filter (\<lambda>i. i = k) [0..<?n]"
    using assms k by (intro filter_cong) auto
  also have "\<dots> = [k]" unfolding k by (rule filter_last_upt)
  finally have "length (filter (\<lambda>b. index b = int ?n - 1) (map ((!) blocks) [0..<?n])) = 1"
    by simp
  with False show ?thesis by (simp add: map_nth)
qed

text \<open>
  C5, as the code has it: the number of highlighted meshes is the number of blocks whose
  \<open>index\<close> field equals N - 1.  It is zero for N = 0, and it is exactly one when every
  block's \<open>index\<close> field equals its array position and N is at least 1.  For arbitrary
  \<open>index\<close> fields the number can be zero or more than one.
\<close>

theorem C5_highlight_count:
  "\<exists>g. build_blockGroup blocks = Inr g \<and>
       count_highlighted g =
         length (filter (\<lambda>b. index b = int (length blocks) - 1) blocks) \<and>
       (blocks = [] \<longrightarrow> count_highlighted g = 0) \<and>
       ((\<forall>i<length blocks. index (blocks ! i) = int i) \<longrightarrow>
          count_highlighted g = (if blocks = [] then 0 else 1))"
proof -
  from build_built [of blocks] obtain g where g: "build_blockGroup blocks = Inr g" by blast
  note eq = count_highlighted_eq [OF g]
  have "blocks = [] \<longrightarrow> count_highlighted g = 0"
    using eq by simp
  moreover have "(\<forall>i<length blocks. index (blocks ! i) = int i) \<longrightarrow>
      count_highlighted g = (if blocks = [] then 0 else 1)"
    using eq count_in_order [of blocks] by simp
  ultimately show ?thesis using g eq by blast
qed

theorem C5_ordered_indices:
  "map_sum id count_highlighted
     (build_blockGroup [example_block 0, example_block 1, example_block 2]) = Inr 1 \<and>
   map_sum id count_highlighted (build_blockGroup ([] :: unit Block list)) = Inr 0"
proof -
  let ?bs = "[example_block 0, example_block 1, example_block 2]"
  have "\<forall>i<length ?bs. index (?bs ! i) = int i"
    by (simp add: example_block_def less_Suc_eq)
  with C5_highlight_count [of ?bs]
  have "map_sum id count_highlighted (build_blockGroup ?bs) = Inr 1"
    by auto
  moreover from C5_highlight_count [of "[] :: unit Block list"]
  have "map_sum id count_highlighted (build_blockGroup ([] :: unit Block list)) = Inr 0"
    by auto
  ultimately show ?thesis by simp
qed

theorem C5_unordered_indices:
  "map_sum id count_highlighted (build_blockGroup [example_block 5]) = Inr 0 \<and>
   map_sum id count_highlighted (build_blockGroup [example_block 1, example_block 1]) = Inr 2"
  by (simp add: build_eval count_highlighted_def highlighted_def example_block_def
      highlight_color_def base_color_def)

text \<open>
  C10: for every input sequence of N blocks the children of the group are, in this order,
  mesh 0 and then, for each i from 1, mesh i followed by line i: the group has 2N - 1
  children for N at least 1 and none for N = 0, the child at 2i - 1 is the mesh of block i,
  and the child at 2i is the line added with it.
\<close>

theorem C10_interleaved_children:
  "\<exists>g. build_blockGroup blocks = Inr g \<and>
       length (children g) = (if blocks = [] then 0 else 2 * length blocks - 1) \<and>
       (blocks \<noteq> [] \<longrightarrow> children g ! 0 = new_mesh (blocks ! 0) 0 (length blocks)) \<and>
       (\<forall>i. 1 \<le> i \<and> i < length blocks \<longrightarrow>
          children g ! (2 * i - 1) = new_mesh (blocks ! i) i (length blocks) \<and>
          is_Mesh (children g ! (2 * i - 1)) \<and>
          children g ! (2 * i) =
            new_line (children g ! (i - 1)) (new_mesh (blocks ! i) i (length blocks)) \<and>
          is_Line (children g ! (2 * i)))"
proof -
  let ?n = "length blocks"
  from build_built [of blocks] obtain g where
    g: "build_blockGroup blocks = Inr g" and b: "built ?n blocks g" by blast
  from b have len: "length (children g) = 2 * ?n - 1"
    and ms: "\<And>i. i < ?n \<Longrightarrow> children g ! (2 * i - 1) = new_mesh (blocks ! i) i ?n"
    and ls: "\<And>i. i < ?n \<Longrightarrow> 0 < i \<Longrightarrow>
          children g ! (2 * i) = new_line (children g ! (i - 1)) (new_mesh (blocks ! i) i ?n)"
    by (simp_all add: built_def)
  have "length (children g) = (if blocks = [] then 0 else 2 * ?n - 1)"
    using len by simp
  moreover have "blocks \<noteq> [] \<longrightarrow> children g ! 0 = new_mesh (blocks ! 0) 0 ?n"
    using ms [of 0] by simp
  moreover have "\<forall>i. 1 \<le> i \<and> i < ?n \<longrightarrow>
          children g ! (2 * i - 1) = new_mesh (blocks ! i) i ?n \<and>
          is_Mesh (children g ! (2 * i - 1)) \<and>
          children g ! (2 * i) = new_line (children g ! (i - 1)) (new_mesh (blocks ! i) i ?n) \<and>
          is_Line (children g ! (2 * i))"
  proof (intro allI impI)
    fix i assume i: "1 \<le> i \<and> i < ?n"
    then have m: "children g ! (2 * i - 1) = new_mesh (blocks ! i) i ?n"
      and l: "children g ! (2 * i) = new_line (children g ! (i - 1)) (new_mesh (blocks ! i) i ?n)"
      using ms [of i] ls [of i] by simp_all
    show "children g ! (2 * i - 1) = new_mesh (blocks ! i) i ?n \<and>
          is_Mesh (children g ! (2 * i - 1)) \<and>
          children g ! (2 * i) = new_line (children g ! (i - 1)) (new_mesh (blocks ! i) i ?n) \<and>
          is_Line (children g ! (2 * i))"
      unfolding m l by (simp add: new_mesh_def new_line_def)
  qed
  ultimately show ?thesis using g by blast
qed

theorem C10_three_blocks:
  "\<exists>g. build_blockGroup [example_block 0, example_block 1, example_block 2] = Inr g \<and>
       length (children g) = 5 \<and>
       children g ! 0 = new_mesh (example_block 0) 0 3 \<and>
       children g ! 3 = new_mesh (example_block 2) 2 3 \<and>
       is_Line (children g ! 4)"
proof -
  let ?bs = "[example_block 0, example_block 1, example_block 2]"
  from C10_interleaved_children [of ?bs] obtain g where
    g: "build_blockGroup ?bs = Inr g"
    and len: "length (children g) = (if ?bs = [] then 0 else 2 * length ?bs - 1)"
    and first: "?bs \<noteq> [] \<longrightarrow> children g ! 0 = new_mesh (?bs ! 0) 0 (length ?bs)"
    and later: "\<forall>i. 1 \<le> i \<and> i < length ?bs \<longrightarrow>
          children g ! (2 * i - 1) = new_mesh (?bs ! i) i (length ?bs) \<and>
          is_Mesh (children g ! (2 * i - 1)) \<and>
          children g ! (2 * i) =
            new_line (children g ! (i - 1)) (new_mesh (?bs ! i) i (length ?bs)) \<and>
          is_Line (children g ! (2 * i))"
    by blast
  have "1 \<le> (2::nat) \<and> 2 < length ?bs" by simp
  from later [rule_format, OF this] have
    a: "children g ! (2 * 2 - 1) = new_mesh (?bs ! 2) 2 (length ?bs)"
    and b: "is_Line (children g ! (2 * 2))" by blast+
  from a have "children g ! 3 = new_mesh (example_block 2) 2 3"
    by (simp add: numeral_3_eq_3)
  moreover from b have "is_Line (children g ! 4)" by simp
  ultimately show ?thesis using g len first by (simp add: numeral_3_eq_3)
qed

lemma position_new_line [simp]: "position (new_line a b) = Vector3 0 0 0"
  by (simp add: new_line_def)

lemma position_new_mesh [simp]: "position (new_mesh b i n) = spiral_position i"
  by (simp add: new_mesh_def)

lemma line_start_new_line [simp]: "line_start (new_line a b) = fround_vector (position a)"
  by (simp add: line_start_def new_line_def fround_vector_def)

lemma line_end_new_line [simp]: "line_end (new_line a b) = fround_vector (position b)"
  by (simp add: line_end_def new_line_def fround_vector_def)

lemma fround_vector_zero [simp]: "fround_vector (Vector3 0 0 0) = Vector3 0 0 0"
  by (simp add: fround_vector_def fround_zero)

lemma connector_endpoints:
  assumes "build_blockGroup blocks = Inr g" "0 < i" "i < length blocks"
  shows "connector_end i g = fround_vector (spiral_position i) \<and>
    connector_start i g =
      (if i = 1 then fround_vector (spiral_position 0)
       else if even i then fround_vector (spiral_position (i div 2))
       else Vector3 0 0 0)"
proof -
  let ?n = "length blocks"
  from build_built [of blocks] assms(1) have b: "built ?n blocks g" by simp
  from b have ms: "\<And>j. j < ?n \<Longrightarrow> children g ! (2 * j - 1) = new_mesh (blocks ! j) j ?n"
    and ls: "\<And>j. j < ?n \<Longrightarrow> 0 < j \<Longrightarrow>
          children g ! (2 * j) = new_line (children g ! (j - 1)) (new_mesh (blocks ! j) j ?n)"
    by (simp_all add: built_def)
  note c = connector_nth [OF assms]
  have e: "connector_end i g = fround_vector (spiral_position i)"
    unfolding connector_end_def c by simp
  have s: "connector_start i g = fround_vector (position (children g ! (i - 1)))"
    unfolding connector_start_def c by simp
  consider "i = 1" | "i \<noteq> 1" "even i" | "i \<noteq> 1" "odd i" by blast
  then have "position (children g ! (i - 1)) =
      (if i = 1 then spiral_position 0
       else if even i then spiral_position (i div 2)
       else Vector3 0 0 0)"
  proof cases
    case 1
    from assms(3) have "0 < ?n" by arith
    from ms [OF this] 1 show ?thesis by simp
  next
    case 2
    then obtain j where j: "i = 2 * j" by (auto elim: evenE)
    with assms have "j < ?n" by simp
    from ms [OF this] j 2 show ?thesis by simp
  next
    case 3
    then obtain j where j: "i = 2 * j + 1" by (auto elim: oddE)
    with 3 assms have "j < ?n" "0 < j" by simp_all
    from ls [OF this] j 3 show ?thesis by simp
  qed
  with e s show ?thesis by simp
qed

text \<open>
  C2 asks that connector i joins the placed position of block i - 1 to that of block i.
  The line ends at the mesh of block i for every i, and starts at the mesh of block i - 1
  for i = 1 and i = 2, in the single precision of its buffer (\<open>connector_endpoints\<close>).  From i = 3 on, the child at i - 1 that
  the source reads as \<^verbatim>\<open>previousMesh\<close> is not the mesh of block i - 1: with four blocks,
  connector 3 starts at the zero vector, the position of the line of connector 1, while the
  mesh of block 2 is at (3 * cos 1, 1, 3 * sin 1).
\<close>

theorem C2_connector_three_of_four:
  "map_sum id (connector_start 3)
     (build_blockGroup [example_block 0, example_block 1, example_block 2, example_block 3]) =
     Inr (Vector3 0 0 0) \<and>
   map_sum id (mesh_position 2)
     (build_blockGroup [example_block 0, example_block 1, example_block 2, example_block 3]) =
     Inr (Vector3 (3 * cos 1) 1 (3 * sin 1)) \<and>
   Vector3 0 0 0 \<noteq> Vector3 (3 * cos 1) 1 (3 * sin 1)"
  by (simp add: build_eval connector_start_def mesh_position_def line_start_def fround_zero)

section \<open>Claims about the effect\<close>

lemma rotate_y_children [simp]: "children (rotate_y g d) = children g"
  by (simp add: rotate_y_def)

lemma rotate_y_rotation [simp]:
  "rotation (rotate_y g d) =
     Vector3 (vx (rotation g)) (double_add (vy (rotation g)) d) (vz (rotation g))"
  by (simp add: rotate_y_def)

lemma animate_world:
  "fst (animate (w, e)) =
     w\<lparr>scheduled_frames := scheduled_frames w @ [next_frame_id w],
       next_frame_id := Suc (next_frame_id w)\<rparr>"
  by (simp add: animate_def requestAnimationFrame_def)

lemma animate_effect:
  "snd (animate (w, e)) =
     e\<lparr>frameId := Some (next_frame_id w),
       blockGroup := rotate_y (blockGroup e) rotation_increment,
       renderer := render (renderer e)\<rparr>"
  by (simp add: animate_def requestAnimationFrame_def)

lemma animate_frame:
  "scene (snd (animate s)) = scene (snd s)"
  "camera (snd (animate s)) = camera (snd s)"
  "children (blockGroup (snd (animate s))) = children (blockGroup (snd s))"
  "mountRef_current (fst (animate s)) = mountRef_current (fst s)"
  "resize_listener (fst (animate s)) = resize_listener (fst s)"
  "domElement (renderer (snd (animate s))) = domElement (renderer (snd s))"
  "rotation (blockGroup (snd (animate s))) =
     Vector3 (vx (rotation (blockGroup (snd s))))
       (double_add (vy (rotation (blockGroup (snd s)))) rotation_increment)
       (vz (rotation (blockGroup (snd s))))"
  by (cases s; simp add: animate_world animate_effect render_def)+

lemma animate_funpow:
  "scene (snd ((animate ^^ k) s)) = scene (snd s) \<and>
   camera (snd ((animate ^^ k) s)) = camera (snd s) \<and>
   children (blockGroup (snd ((animate ^^ k) s))) = children (blockGroup (snd s)) \<and>
   mountRef_current (fst ((animate ^^ k) s)) = mountRef_current (fst s)"
proof (induction k)
  case 0
  show ?case by simp
next
  case (Suc k)
  then show ?case by (simp add: animate_frame)
qed

lemma animate_funpow_rotation:
  assumes "rotation (blockGroup (snd s)) = Vector3 0 0 0"
  shows "rotation (blockGroup (snd ((animate ^^ k) s))) = Vector3 0 (accumulated k) 0"
proof (induction k)
  case 0
  show ?case using assms by simp
next
  case (Suc k)
  then show ?case by (simp add: animate_frame)
qed

lemma bootstrap_ok:
  "\<exists>w0 e0. bootstrap w h blocks = Inr (w0, e0) \<and>
     build_blockGroup blocks = Inr (blockGroup e0) \<and>
     rotation (blockGroup e0) = Vector3 0 0 0 \<and>
     frameId e0 = None \<and>
     scheduled_frames w0 = scheduled_frames w \<and>
     next_frame_id w0 = next_frame_id w \<and>
     resize_listener w0 = resize_listener w \<and>
     domElement (renderer e0) = next_element w \<and>
     render_size (renderer e0) = (clientWidth h, clientHeight h) \<and>
     aspect (camera e0) = js_div (clientWidth h) (clientHeight h) \<and>
     mountRef_current w0 = Some (appendChild h (next_element w))"
proof -
  from build_built [of blocks] obtain g where
    g: "build_blockGroup blocks = Inr g" "built (length blocks) blocks g" by blast
  then have "rotation g = Vector3 0 0 0" by (simp add: built_def)
  with g(1) show ?thesis
    by (simp add: bootstrap_def Let_def setSize_def new_PerspectiveCamera_def
        updateProjectionMatrix_def)
qed

lemma useEffect_attached:
  assumes "mountRef_current w = Some h"
  shows "\<exists>w' e. useEffect w blocks = Inr (w', Some e) \<and>
     scheduled_frames w' = scheduled_frames w @ [next_frame_id w] \<and>
     frameId e = Some (next_frame_id w) \<and>
     resize_listener w' \<and>
     domElement (renderer e) = next_element w \<and>
     render_size (renderer e) = (clientWidth h, clientHeight h) \<and>
     aspect (camera e) = js_div (clientWidth h) (clientHeight h) \<and>
     mountRef_current w' = Some (appendChild h (next_element w))"
proof -
  from bootstrap_ok [of w h blocks] obtain w0 e0 where
    b: "bootstrap w h blocks = Inr (w0, e0)"
      "scheduled_frames w0 = scheduled_frames w" "next_frame_id w0 = next_frame_id w"
      "domElement (renderer e0) = next_element w"
      "render_size (renderer e0) = (clientWidth h, clientHeight h)"
      "aspect (camera e0) = js_div (clientWidth h) (clientHeight h)"
      "mountRef_current w0 = Some (appendChild h (next_element w))"
    by blast
  then show ?thesis using assms
    by (simp add: useEffect_def animate_def requestAnimationFrame_def render_def)
qed

text \<open>
  C6, as the code has it: when \<^verbatim>\<open>mountRef.current\<close> is null the effect returns at once,
  with no error: nothing is created, nothing is scheduled and the environment is left as it
  was.  An attached host surface is bootstrapped whatever its client size, zero width or
  height included: the canvas is appended, the first frame is requested and the resize
  handler is registered.
\<close>

theorem C6_bootstrap_guard:
  "(mountRef_current w = None \<longrightarrow> useEffect w blocks = Inr (w, None)) \<and>
   (mountRef_current w = Some h \<longrightarrow>
      (\<exists>w' e. useEffect w blocks = Inr (w', Some e) \<and>
         scheduled_frames w' = scheduled_frames w @ [next_frame_id w] \<and>
         resize_listener w' \<and>
         render_size (renderer e) = (clientWidth h, clientHeight h) \<and>
         aspect (camera e) = js_div (clientWidth h) (clientHeight h) \<and>
         mountRef_current w' = Some (appendChild h (next_element w))))"
proof -
  have "mountRef_current w = None \<longrightarrow> useEffect w blocks = Inr (w, None)"
    by (simp add: useEffect_def)
  moreover have "mountRef_current w = Some h \<longrightarrow>
      (\<exists>w' e. useEffect w blocks = Inr (w', Some e) \<and>
         scheduled_frames w' = scheduled_frames w @ [next_frame_id w] \<and>
         resize_listener w' \<and>
         render_size (renderer e) = (clientWidth h, clientHeight h) \<and>
         aspect (camera e) = js_div (clientWidth h) (clientHeight h) \<and>
         mountRef_current w' = Some (appendChild h (next_element w)))"
    using useEffect_attached [of w h blocks] by blast
  ultimately show ?thesis by blast
qed

theorem C6_detached_surface:
  "useEffect (example_world None) [example_block 0] = Inr (example_world None, None) \<and>
   (\<exists>w' e. useEffect (example_world (Some (example_host 800 400))) [example_block 0] =
        Inr (w', Some e) \<and>
      scheduled_frames w' = [1] \<and> render_size (renderer e) = (800, 400) \<and>
      aspect (camera e) = Num 2)"
proof -
  have a: "mountRef_current (example_world None) = None"
    and b: "mountRef_current (example_world (Some (example_host 800 400))) =
      Some (example_host 800 400)"
    by (simp_all add: example_world_def)
  from C6_bootstrap_guard [of "example_world None" "[example_block 0]"] a
  have "useEffect (example_world None) [example_block 0] = Inr (example_world None, None)"
    by simp
  moreover from C6_bootstrap_guard
    [of "example_world (Some (example_host 800 400))" "[example_block 0]" "example_host 800 400"] b
  have "\<exists>w' e. useEffect (example_world (Some (example_host 800 400))) [example_block 0] =
        Inr (w', Some e) \<and>
      scheduled_frames w' = [1] \<and> render_size (renderer e) = (800, 400) \<and>
      aspect (camera e) = Num 2"
    by (auto simp: example_world_def example_host_def js_div_def)
  ultimately show ?thesis by simp
qed

theorem C6_zero_size_surface:
  "useEffect (example_world (Some (example_host 0 0))) ([] :: unit Block list) =
   Inr (\<lparr>mountRef_current = Some \<lparr>clientWidth = 0, clientHeight = 0, childNodes = [0]\<rparr>,
          resize_listener = True, scheduled_frames = [1], next_frame_id = 2, next_element = 1\<rparr>,
        Some \<lparr>scene = [AmbientLight 4210752, DirectionalLight 16777215 1 (Vector3 1 1 1),
                       BlockGroup],
              camera = \<lparr>fov = 75, aspect = NaN, near = 0.1, far = 1000,
                        camera_position = Vector3 0 5 10, look_target = Vector3 0 0 0,
                        projection = (75, NaN, 0.1, 1000)\<rparr>,
              renderer = \<lparr>domElement = 0, antialias = True, alpha = True,
                          render_size = (0, 0), frames_drawn = 1\<rparr>,
              blockGroup = \<lparr>children = [], rotation = Vector3 0 rotation_increment 0\<rparr>,
              frameId = Some 1\<rparr>)"
proof -
  have "double_add 0 rotation_increment = rotation_increment"
    using accumulated_one by simp
  then show ?thesis by (simp add: lifecycle_eval build_eval)
qed

text \<open>
  C7: the resize handler leaves the environment, the block group (its children with their
  positions and materials, and its rotation), the scene, the pending frame request and every
  other camera and renderer field as they are; with the host surface attached it sets the
  render size and the camera's aspect ratio from the client size and recomputes the
  projection from the new aspect ratio, and with \<^verbatim>\<open>mountRef.current\<close> null it does nothing.
  The same holds of the block group and the scene across a whole resize event.
\<close>

theorem C7_resize_frame:
  "fst (handleResize (w, e)) = w \<and>
   blockGroup (snd (handleResize (w, e))) = blockGroup e \<and>
   scene (snd (handleResize (w, e))) = scene e \<and>
   frameId (snd (handleResize (w, e))) = frameId e \<and>
   domElement (renderer (snd (handleResize (w, e)))) = domElement (renderer e) \<and>
   frames_drawn (renderer (snd (handleResize (w, e)))) = frames_drawn (renderer e) \<and>
   fov (camera (snd (handleResize (w, e)))) = fov (camera e) \<and>
   near (camera (snd (handleResize (w, e)))) = near (camera e) \<and>
   far (camera (snd (handleResize (w, e)))) = far (camera e) \<and>
   camera_position (camera (snd (handleResize (w, e)))) = camera_position (camera e) \<and>
   look_target (camera (snd (handleResize (w, e)))) = look_target (camera e) \<and>
   (case mountRef_current w of
      None \<Rightarrow> handleResize (w, e) = (w, e)
    | Some h \<Rightarrow>
        render_size (renderer (snd (handleResize (w, e)))) = (clientWidth h, clientHeight h) \<and>
        aspect (camera (snd (handleResize (w, e)))) = js_div (clientWidth h) (clientHeight h) \<and>
        projection (camera (snd (handleResize (w, e)))) =
          (fov (camera e), js_div (clientWidth h) (clientHeight h), near (camera e),
           far (camera e))) \<and>
   blockGroup (snd (step (w, e) (WindowResize width height))) = blockGroup e \<and>
   scene (snd (step (w, e) (WindowResize width height))) = scene e"
  by (cases "mountRef_current w")
     (simp_all add: handleResize_def Let_def setSize_def updateProjectionMatrix_def)

theorem C7_resized_instance:
  "\<exists>w e. useEffect (example_world (Some (example_host 800 400)))
       [example_block 0, example_block 1] = Inr (w, Some e) \<and>
     blockGroup (snd (step (w, e) (WindowResize 640 480))) = blockGroup e \<and>
     length (children (blockGroup (snd (step (w, e) (WindowResize 640 480))))) = 3 \<and>
     render_size (renderer (snd (step (w, e) (WindowResize 640 480)))) = (640, 480)"
proof -
  have "mountRef_current (example_world (Some (example_host 800 400))) =
      Some (example_host 800 400)"
    by (simp add: example_world_def)
  from useEffect_attached [OF this, of "[example_block 0, example_block 1]"] obtain w e where
    m: "useEffect (example_world (Some (example_host 800 400)))
       [example_block 0, example_block 1] = Inr (w, Some e)" by blast
  from C7_resize_frame [of w e 640 480]
  have "blockGroup (snd (step (w, e) (WindowResize 640 480))) = blockGroup e"
    by simp
  moreover from m have "length (children (blockGroup e)) = 3"
    by (auto simp: lifecycle_eval build_eval)
  moreover from m have "render_size (renderer (snd (step (w, e) (WindowResize 640 480)))) =
      (640, 480)"
    by (auto simp: lifecycle_eval build_eval)
  ultimately show ?thesis using m by simp
qed

text \<open>
  C9, as the code has it: one render cycle replaces the block group's rotation about the y
  axis by the double-precision sum of that rotation and 0.005, and leaves the other two
  rotation angles and the group's children as they are.  From the freshly built scene,
  after k cycles the rotation is (0, a, 0) with a the result of adding 0.005 k times,
  each sum rounded to a double, starting from 0; the children of the group, the scene and
  the camera are unchanged.  The accumulated sum is not k * 0.005 in general: after 6
  cycles it is 0.030000000000000002, one unit in the last place above the double 0.03.
\<close>

theorem C9_render_cycle:
  "\<exists>w0 e0. bootstrap w h blocks = Inr (w0, e0) \<and>
     build_blockGroup blocks = Inr (blockGroup e0) \<and>
     rotation (blockGroup (snd ((animate ^^ k) (w0, e0)))) = Vector3 0 (accumulated k) 0 \<and>
     children (blockGroup (snd ((animate ^^ k) (w0, e0)))) = children (blockGroup e0) \<and>
     scene (snd ((animate ^^ k) (w0, e0))) = scene e0 \<and>
     camera (snd ((animate ^^ k) (w0, e0))) = camera e0 \<and>
     vy (rotation (blockGroup (snd (animate s)))) =
       double_add (vy (rotation (blockGroup (snd s)))) rotation_increment \<and>
     vx (rotation (blockGroup (snd (animate s)))) = vx (rotation (blockGroup (snd s))) \<and>
     vz (rotation (blockGroup (snd (animate s)))) = vz (rotation (blockGroup (snd s))) \<and>
     children (blockGroup (snd (animate s))) = children (blockGroup (snd s)) \<and>
     accumulated 0 = 0 \<and>
     accumulated (Suc k) = double_add (accumulated k) rotation_increment \<and>
     rotation_increment = double 0.005"
proof -
  from bootstrap_ok [of w h blocks] obtain w0 e0 where
    b: "bootstrap w h blocks = Inr (w0, e0)" "build_blockGroup blocks = Inr (blockGroup e0)"
      "rotation (blockGroup e0) = Vector3 0 0 0" by blast
  from b(3) have "rotation (blockGroup (snd (w0, e0))) = Vector3 0 0 0" by simp
  from animate_funpow_rotation [OF this, of k]
  have "rotation (blockGroup (snd ((animate ^^ k) (w0, e0)))) = Vector3 0 (accumulated k) 0" .
  moreover from animate_funpow [of k "(w0, e0)"]
  have "children (blockGroup (snd ((animate ^^ k) (w0, e0)))) = children (blockGroup e0)"
    and "scene (snd ((animate ^^ k) (w0, e0))) = scene e0"
    and "camera (snd ((animate ^^ k) (w0, e0))) = camera e0"
    by simp_all
  ultimately show ?thesis
    using b(1,2) by (simp add: animate_frame rotation_increment_def)
qed

theorem C9_three_cycles:
  "\<exists>w0 e0. bootstrap (example_world (Some (example_host 800 400))) (example_host 800 400)
       [example_block 0, example_block 1] = Inr (w0, e0) \<and>
     rotation (blockGroup (snd ((animate ^^ 3) (w0, e0)))) =
       Vector3 0 (8646911284551352 / 2 ^ 59) 0 \<and>
     children (blockGroup (snd ((animate ^^ 3) (w0, e0)))) = children (blockGroup e0)"
proof -
  let ?w = "example_world (Some (example_host 800 400))"
  let ?bs = "[example_block 0, example_block 1]"
  from C9_render_cycle [of ?w "example_host 800 400" ?bs 3 "(?w, e)" for e]
  obtain w0 e0 where
    "bootstrap ?w (example_host 800 400) ?bs = Inr (w0, e0)"
    "rotation (blockGroup (snd ((animate ^^ 3) (w0, e0)))) = Vector3 0 (accumulated 3) 0"
    "children (blockGroup (snd ((animate ^^ 3) (w0, e0)))) = children (blockGroup e0)"
    by blast
  then show ?thesis by (simp only: accumulated_three) blast
qed

theorem C9_six_cycles:
  "rotation_after 6
     (bootstrap (example_world (Some (example_host 800 400))) (example_host 800 400)
        [example_block 0]) =
     Inr (Vector3 0 (8646911284551353 / 2 ^ 58) 0) \<and>
   (8646911284551353 / 2 ^ 58 :: real) \<noteq> 6 * 0.005 \<and>
   double (6 * rotation_increment) = 8646911284551352 / 2 ^ 58 \<and>
   (8646911284551353 / 2 ^ 58 :: real) \<noteq> 8646911284551352 / 2 ^ 58"
proof -
  let ?w = "example_world (Some (example_host 800 400))"
  from bootstrap_ok [of ?w "example_host 800 400" "[example_block 0]"] obtain w0 e0 where
    b: "bootstrap ?w (example_host 800 400) [example_block 0] = Inr (w0, e0)"
      "rotation (blockGroup e0) = Vector3 0 0 0" by blast
  from b(2) have "rotation (blockGroup (snd (w0, e0))) = Vector3 0 0 0" by simp
  from animate_funpow_rotation [OF this, of 6]
  have "rotation (blockGroup (snd ((animate ^^ 6) (w0, e0)))) =
      Vector3 0 (8646911284551353 / 2 ^ 58) 0"
    by (simp only: accumulated_six)
  with b(1) have "rotation_after 6 (bootstrap ?w (example_host 800 400) [example_block 0]) =
      Inr (Vector3 0 (8646911284551353 / 2 ^ 58) 0)"
    by (simp add: rotation_after_def)
  moreover have "(8646911284551353 / 2 ^ 58 :: real) \<noteq> 6 * 0.005"
    by simp
  moreover have "(8646911284551353 / 2 ^ 58 :: real) \<noteq> 8646911284551352 / 2 ^ 58"
    by simp
  ultimately show ?thesis using product_six by blast
qed

lemma step_running:
  assumes "running s"
  shows "running (step s ev)"
proof (cases s)
  case (Pair w e)
  show ?thesis
  proof (cases ev)
    case AnimationFrame
    with assms Pair show ?thesis
      by (auto simp: running_def animate_def requestAnimationFrame_def render_def
          split: list.splits option.splits)
  next
    case (WindowResize width height)
    with assms Pair show ?thesis
      by (auto simp: running_def handleResize_def Let_def setSize_def
          split: option.splits)
  next
    case RefCleared
    with assms Pair show ?thesis by (simp add: running_def)
  qed
qed

lemma run_running: "running s \<Longrightarrow> running (run s evs)"
  unfolding run_def by (induction evs arbitrary: s) (simp_all add: step_running)

lemma useEffect_running:
  assumes "mountRef_current w = Some h" "scheduled_frames w = []"
  shows "\<exists>w' e. useEffect w blocks = Inr (w', Some e) \<and> running (w', e)"
proof -
  from useEffect_attached [OF assms(1), of blocks] obtain w' e where
    "useEffect w blocks = Inr (w', Some e)"
    "scheduled_frames w' = scheduled_frames w @ [next_frame_id w]"
    "frameId e = Some (next_frame_id w)"
    "domElement (renderer e) = next_element w"
    "mountRef_current w' = Some (appendChild h (next_element w))"
    by blast
  with assms(2) show ?thesis by (simp add: running_def appendChild_def)
qed

lemma cleanup_running:
  assumes "running s"
  shows "fst (cleanup s) = None \<and>
     scheduled_frames (fst (snd (cleanup s))) = [] \<and>
     \<not> resize_listener (fst (snd (cleanup s))) \<and>
     snd (snd (cleanup s)) = snd s \<and>
     (case mountRef_current (fst (snd (cleanup s))) of
        None \<Rightarrow> mountRef_current (fst s) = None
      | Some h \<Rightarrow>
          mountRef_current (fst s) \<noteq> None \<and>
          domElement (renderer (snd s)) \<notin> set (childNodes h))"
  using assms
  by (cases s)
     (auto simp: running_def cleanup_def Let_def cancelAnimationFrame_def removeChild_def
       split: option.splits)

lemma cleanup_again:
  assumes "scheduled_frames (fst s) = []"
    and "case mountRef_current (fst s) of None \<Rightarrow> True
         | Some h \<Rightarrow> domElement (renderer (snd s)) \<notin> set (childNodes h)"
  shows "fst (cleanup s) =
       (if mountRef_current (fst s) = None then None else Some NotFoundError) \<and>
     scheduled_frames (fst (snd (cleanup s))) = [] \<and>
     \<not> resize_listener (fst (snd (cleanup s)))"
  using assms
  by (cases s)
     (auto simp: cleanup_def Let_def cancelAnimationFrame_def removeChild_def
       split: option.splits)

text \<open>
  C8, as the code has it: for an instance mounted on an attached host surface with no frame
  request pending beforehand, and after any sequence of frames, resize events and clearing
  of the reference, the first call of the cleanup function throws nothing and leaves no
  frame request pending and no resize handler registered.  A second call in succession
  also leaves no frame request pending; it throws nothing when \<^verbatim>\<open>mountRef.current\<close> is null,
  and throws \<^verbatim>\<open>NotFoundError\<close> from \<^verbatim>\<open>removeChild\<close> when the host surface is still
  attached, the canvas being no longer its child.
\<close>

theorem C8_teardown:
  assumes "mountRef_current w = Some h" and "scheduled_frames w = []"
  shows "\<exists>w' e. useEffect w blocks = Inr (w', Some e) \<and>
     fst (cleanup (run (w', e) evs)) = None \<and>
     scheduled_frames (fst (snd (cleanup (run (w', e) evs)))) = [] \<and>
     \<not> resize_listener (fst (snd (cleanup (run (w', e) evs)))) \<and>
     scheduled_frames (fst (snd (cleanup (snd (cleanup (run (w', e) evs)))))) = [] \<and>
     teardown_twice (run (w', e) evs) =
       (None, if mountRef_current (fst (run (w', e) evs)) = None then None
              else Some NotFoundError)"
proof -
  from useEffect_running [OF assms, of blocks] obtain w' e where
    m: "useEffect w blocks = Inr (w', Some e)" and r: "running (w', e)" by blast
  define s where "s = run (w', e) evs"
  define s1 where "s1 = snd (cleanup s)"
  have "running s" unfolding s_def using r by (rule run_running)
  note c1 = cleanup_running [OF this]
  from c1 have frames: "scheduled_frames (fst s1) = []" by (simp add: s1_def)
  from c1 have canvas: "case mountRef_current (fst s1) of None \<Rightarrow> True
         | Some h \<Rightarrow> domElement (renderer (snd s1)) \<notin> set (childNodes h)"
    by (auto simp: s1_def split: option.splits)
  from c1 have same: "mountRef_current (fst s1) = None \<longleftrightarrow> mountRef_current (fst s) = None"
    by (auto simp: s1_def split: option.splits)
  note c2 = cleanup_again [OF frames canvas]
  have "fst (cleanup s) = None \<and>
     scheduled_frames (fst (snd (cleanup s))) = [] \<and>
     \<not> resize_listener (fst (snd (cleanup s))) \<and>
     scheduled_frames (fst (snd (cleanup (snd (cleanup s))))) = [] \<and>
     teardown_twice s =
       (None, if mountRef_current (fst s) = None then None else Some NotFoundError)"
    using c1 c2 same by (simp add: teardown_twice_def s1_def)
  with m show ?thesis unfolding s_def by blast
qed

theorem C8_teardown_after_events:
  "\<exists>w' e. useEffect (example_world (Some (example_host 800 400)))
       [example_block 0, example_block 1] = Inr (w', Some e) \<and>
     teardown_twice (run (w', e) [AnimationFrame, WindowResize 640 480, AnimationFrame]) =
       (None, Some NotFoundError)"
proof -
  let ?w = "example_world (Some (example_host 800 400))"
  let ?bs = "[example_block 0, example_block 1]"
  let ?evs = "[AnimationFrame, WindowResize 640 480, AnimationFrame]"
  have a: "mountRef_current ?w = Some (example_host 800 400)" "scheduled_frames ?w = []"
    by (simp_all add: example_world_def)
  from C8_teardown [OF a, of ?bs ?evs] obtain w' e where
    m: "useEffect ?w ?bs = Inr (w', Some e)"
    and t: "teardown_twice (run (w', e) ?evs) =
       (None, if mountRef_current (fst (run (w', e) ?evs)) = None then None
              else Some NotFoundError)"
    by blast
  from m have "mountRef_current (fst (run (w', e) ?evs)) \<noteq> None"
    by (auto simp: lifecycle_eval build_eval)
  with m t show ?thesis by simp
qed

theorem C8_second_teardown_throws:
  "map_option teardown_twice
     (mounted (useEffect (example_world (Some (example_host 800 400))) [example_block 0])) =
   Some (None, Some NotFoundError)"
  by (simp add: lifecycle_eval build_eval teardown_twice_def mounted_def)

end
